theory Spec2Isabelle
  imports Complex_Main "HOL-Library.AList"
begin

section \<open>Values of the trading library used by the strategy template\<close>

text \<open>
  The template (src/vnpy_portfoliostrategy/template.py) and the stop order
  (src/vnpy_novastrategy/base.py) import their enumerations and event objects from the
  trading library \<^verbatim>\<open>vnpy.trader\<close>, which is not part of the sources. They are modelled
  here with the fields and members the two files use.
\<close>

text \<open>
  Modelled from the spec: the enumeration \<^verbatim>\<open>Direction\<close> of \<^verbatim>\<open>vnpy.trader.constant\<close>.
  The glossary names Long and Short; \<open>NET\<close> stands for every other member the library's
  enumeration has, so that the \<^verbatim>\<open>else\<close> branch of \<^verbatim>\<open>update_trade\<close> is also reached by a
  value that is not \<open>SHORT\<close>.
\<close>

datatype Direction = LONG | SHORT | NET

text \<open>
  Modelled from the spec: the enumeration \<^verbatim>\<open>Offset\<close> of \<^verbatim>\<open>vnpy.trader.constant\<close>, with
  the two members the glossary names and the template uses. Offsets are only passed on.
\<close>

datatype Offset = OPEN | CLOSE

text \<open>
  Modelled from the spec: \<^verbatim>\<open>TradeData\<close> of \<^verbatim>\<open>vnpy.trader.object\<close>, with the three
  attributes \<^verbatim>\<open>update_trade\<close> reads. The volume is an integer, as the position map
  \<^verbatim>\<open>pos_data: dict[str, int]\<close> it is added to.
\<close>

record TradeData =
  vt_symbol :: string
  direction :: Direction
  volume :: int

text \<open>
  Modelled from the spec: \<^verbatim>\<open>OrderData\<close> of \<^verbatim>\<open>vnpy.trader.object\<close>, with the attribute
  and the method the order callback reads: \<open>is_active\<close> is the result of
  \<^verbatim>\<open>order.is_active()\<close>; a status is terminal when it is false.
\<close>

record OrderData =
  vt_orderid :: string
  is_active :: bool

section \<open>Python values, errors and containers\<close>

datatype error = KeyError | TypeError | AttributeError | RecursionError | RuntimeError

text \<open>The values an attribute of a strategy instance can hold.\<close>

datatype pyval =
    PyNone
  | PyBool bool
  | PyInt int
  | PyStr string
  | PyList "pyval list"
  | PyPosData "string \<rightharpoonup> int"
  | PyIdSet "string set"

text \<open>
  \<^verbatim>\<open>list.extend\<close> appends to the list it is called on and returns \<^verbatim>\<open>None\<close>: the first
  component is the list after the call, the second the value of the call expression.
\<close>

definition list_extend :: "'a list \<Rightarrow> 'a list \<Rightarrow> 'a list \<times> 'b option" where
  "list_extend xs ys = (xs @ ys, None)"

text \<open>
  \<^verbatim>\<open>defaultdict(int)\<close>: reading a missing key with \<^verbatim>\<open>d[k]\<close> stores and returns \<^verbatim>\<open>int()\<close>,
  that is 0; \<^verbatim>\<open>d.get(k, default)\<close> returns the default and stores nothing.
\<close>

definition defaultdict_getitem :: "('k \<rightharpoonup> int) \<Rightarrow> 'k \<Rightarrow> int \<times> ('k \<rightharpoonup> int)" where
  "defaultdict_getitem d k = (case d k of None \<Rightarrow> (0, d(k \<mapsto> 0)) | Some v \<Rightarrow> (v, d))"

definition dict_get :: "('k \<rightharpoonup> 'v) \<Rightarrow> 'k \<Rightarrow> 'v \<Rightarrow> 'v" where
  "dict_get d k dflt = (case d k of None \<Rightarrow> dflt | Some v \<Rightarrow> v)"

text \<open>\<^verbatim>\<open>set.remove\<close> raises \<^verbatim>\<open>KeyError\<close> for an element that is not a member.\<close>

definition set_remove :: "'a set \<Rightarrow> 'a \<Rightarrow> error + 'a set" where
  "set_remove A x = (if x \<in> A then Inr (A - {x}) else Inl KeyError)"

section \<open>The strategy template\<close>

text \<open>A request the instance makes to its engine.\<close>

datatype engine_call =
    SendOrder string Direction Offset real real bool bool
  | CancelOrder string

text \<open>
  Modelled from the spec: the engine (\<^verbatim>\<open>StrategyEngine\<close>, imported for type checking
  only), an external collaborator. \<open>send_order_ids\<close> gives the identifiers the engine
  returns for a submission, from the requests it has received so far (the submission
  last); \<open>cancel_order_sync\<close> is what has happened to the instance's active-order set
  when the engine's \<^verbatim>\<open>cancel_order\<close> returns: the identity for an engine that confirms
  cancellations later, through the event stream.
\<close>

record StrategyEngine =
  send_order_ids :: "engine_call list \<Rightarrow> string list"
  cancel_order_sync :: "string \<Rightarrow> string set \<Rightarrow> string set"

text \<open>
  The class attributes a strategy class declares: its two name lists and the class-level
  values of its attributes.
\<close>

record StrategyClass =
  cls_parameters :: "string list"
  cls_variables :: "string list"
  cls_attrs :: "string \<rightharpoonup> pyval"

text \<open>
  An instance. The attributes \<^verbatim>\<open>__init__\<close> assigns are fields with the types of their
  annotations; \<open>strategy_engine\<close> is the engine seen from the instance, the requests it
  has received, oldest first. \<open>variables\<close> is \<open>None\<close> when the attribute holds Python's
  \<^verbatim>\<open>None\<close>. \<open>parameters\<close> is what \<^verbatim>\<open>self.parameters\<close> reads: the class attribute, until an
  assignment to the instance shadows it. \<open>class_attrs\<close> holds the other class
  attributes, \<open>attrs\<close> the other instance attributes, those of the strategy itself.
  A record is an instance whose own attributes hold values of the annotated types and
  whose methods and engine are the template's.
\<close>

record StrategyTemplate =
  strategy_engine :: "engine_call list"
  strategy_name :: string
  vt_symbols :: "string list"
  inited :: bool
  trading :: bool
  pos_data :: "string \<rightharpoonup> int"
  active_orderids :: "string set"
  variables :: "string list option"
  parameters :: "string list"
  class_attrs :: "string \<rightharpoonup> pyval"
  attrs :: "string \<rightharpoonup> pyval"

text \<open>The methods the class body of the template defines.\<close>

definition template_methods :: "string list" where
  "template_methods =
     [''update_setting'', ''get_class_parameters'', ''get_parameters'', ''get_variables'',
      ''get_data'', ''on_init'', ''on_start'', ''on_stop'', ''on_tick'', ''on_bars'',
      ''on_trade'', ''on_order'', ''update_trade'', ''buy'', ''sell'', ''short'', ''cover'',
      ''send_order'', ''cancel_order'', ''cancel_all'', ''get_pos'', ''write_log'',
      ''get_pricetick'', ''get_size'', ''load_bars'', ''put_event'', ''sync_data'']"

text \<open>
  The attribute names whose values are no \<open>pyval\<close>: the methods of the template, its
  engine, and the special attributes of every object (a name that begins with two
  underscores). Reading or assigning one of them is outside the model.
\<close>

definition reserved :: "string \<Rightarrow> bool" where
  "reserved name \<longleftrightarrow>
     name \<in> set template_methods \<or> name = ''strategy_engine'' \<or> take 2 name = ''__''"

text \<open>A value as a string, and as a list of strings.\<close>

fun str_of :: "pyval \<Rightarrow> string option" where
  "str_of (PyStr s) = Some s"
| "str_of _ = None"

fun names_of :: "pyval \<Rightarrow> string list option" where
  "names_of (PyList xs) = those (map str_of xs)"
| "names_of _ = None"

text \<open>
  \<^verbatim>\<open>setattr(self, name, v)\<close> binds the instance attribute of that name, whichever it is:
  an attribute of the template is rebound, any other name is bound among the attributes
  of the strategy. The result is \<open>None\<close> where the instance is no record afterwards:
  the name is reserved, or an attribute of the template would hold a value of another
  type than its annotation. Such an assignment is outside the model; Python performs it.
\<close>

definition setattr :: "string \<Rightarrow> pyval \<Rightarrow> StrategyTemplate \<Rightarrow> StrategyTemplate option" where
  "setattr name v self =
     (if reserved name then None
      else if name = ''strategy_name'' then
        map_option (\<lambda>s. self\<lparr>strategy_name := s\<rparr>) (str_of v)
      else if name = ''vt_symbols'' then
        map_option (\<lambda>xs. self\<lparr>vt_symbols := xs\<rparr>) (names_of v)
      else if name = ''inited'' then
        (case v of PyBool b \<Rightarrow> Some (self\<lparr>inited := b\<rparr>) | _ \<Rightarrow> None)
      else if name = ''trading'' then
        (case v of PyBool b \<Rightarrow> Some (self\<lparr>trading := b\<rparr>) | _ \<Rightarrow> None)
      else if name = ''pos_data'' then
        (case v of PyPosData d \<Rightarrow> Some (self\<lparr>pos_data := d\<rparr>) | _ \<Rightarrow> None)
      else if name = ''active_orderids'' then
        (case v of PyIdSet ids \<Rightarrow> Some (self\<lparr>active_orderids := ids\<rparr>) | _ \<Rightarrow> None)
      else if name = ''variables'' then
        (case v of
           PyNone \<Rightarrow> Some (self\<lparr>variables := None\<rparr>)
         | _ \<Rightarrow> map_option (\<lambda>ns. self\<lparr>variables := Some ns\<rparr>) (names_of v))
      else if name = ''parameters'' then
        map_option (\<lambda>ns. self\<lparr>parameters := ns\<rparr>) (names_of v)
      else Some (self\<lparr>attrs := (attrs self)(name \<mapsto> v)\<rparr>))"

text \<open>
  \<^verbatim>\<open>getattr(self, name)\<close>: the instance attribute, else the class attribute, else
  \<^verbatim>\<open>AttributeError\<close>; \<open>None\<close> for a reserved name, whose value the model does not
  describe.
\<close>

definition getattr :: "StrategyTemplate \<Rightarrow> string \<Rightarrow> (error + pyval) option" where
  "getattr self name =
     (if reserved name then None
      else Some
        (if name = ''strategy_name'' then Inr (PyStr (strategy_name self))
         else if name = ''vt_symbols'' then Inr (PyList (map PyStr (vt_symbols self)))
         else if name = ''inited'' then Inr (PyBool (inited self))
         else if name = ''trading'' then Inr (PyBool (trading self))
         else if name = ''pos_data'' then Inr (PyPosData (pos_data self))
         else if name = ''active_orderids'' then Inr (PyIdSet (active_orderids self))
         else if name = ''variables'' then
           Inr (case variables self of None \<Rightarrow> PyNone | Some ns \<Rightarrow> PyList (map PyStr ns))
         else if name = ''parameters'' then Inr (PyList (map PyStr (parameters self)))
         else case attrs self name of
             Some v \<Rightarrow> Inr v
           | None \<Rightarrow> (case class_attrs self name of
                 Some v \<Rightarrow> Inr v
               | None \<Rightarrow> Inl AttributeError)))"

text \<open>
  The attributes of the template that are fields of the record, by name; every other
  name that is not reserved is an attribute of the strategy itself.
\<close>

definition field_names :: "string list" where
  "field_names = [''strategy_name'', ''vt_symbols'', ''inited'', ''trading'', ''pos_data'',
     ''active_orderids'', ''variables'', ''parameters'']"

text \<open>
  \<^verbatim>\<open>update_setting\<close>: the loop over the declared parameter names, in order; a name that
  is a key of the setting is assigned the setting's value. The loop runs over the list
  that \<^verbatim>\<open>self.parameters\<close> holds when it starts, also if an assignment rebinds that
  attribute meanwhile.
\<close>

fun update_setting_loop ::
  "(string \<rightharpoonup> pyval) \<Rightarrow> string list \<Rightarrow> StrategyTemplate \<Rightarrow> StrategyTemplate option" where
  "update_setting_loop setting [] self = Some self"
| "update_setting_loop setting (name # names) self =
     (case setting name of
        None \<Rightarrow> update_setting_loop setting names self
      | Some v \<Rightarrow>
          (case setattr name v self of
             None \<Rightarrow> None
           | Some self' \<Rightarrow> update_setting_loop setting names self'))"

definition update_setting ::
  "(string \<rightharpoonup> pyval) \<Rightarrow> StrategyTemplate \<Rightarrow> StrategyTemplate option" where
  "update_setting setting self = update_setting_loop setting (parameters self) self"

text \<open>
  \<^verbatim>\<open>__init__\<close>. The variable name list is assigned the value of the call
  \<^verbatim>\<open>["inited", "trading", "pos_data"].extend(self.variables)\<close>, where \<^verbatim>\<open>self.variables\<close>
  still reads the class attribute; the last statement applies the setting.
\<close>

definition init ::
  "StrategyClass \<Rightarrow> string \<Rightarrow> string list \<Rightarrow> (string \<rightharpoonup> pyval) \<Rightarrow>
     StrategyTemplate option" where
  "init cls name symbols setting =
     update_setting setting
       \<lparr>strategy_engine = [],
        strategy_name = name,
        vt_symbols = symbols,
        inited = False,
        trading = False,
        pos_data = Map.empty,
        active_orderids = {},
        variables = snd (list_extend [''inited'', ''trading'', ''pos_data''] (cls_variables cls)),
        parameters = cls_parameters cls,
        class_attrs = cls_attrs cls,
        attrs = Map.empty\<rparr>"

text \<open>
  \<^verbatim>\<open>get_variables\<close>: iterating \<^verbatim>\<open>None\<close> raises \<^verbatim>\<open>TypeError\<close>; otherwise the snapshot is
  built name by name, in the order of the list, a later duplicate overwriting the value
  of an earlier one, and a name without attribute raises. The snapshot is \<open>None\<close> when
  it meets a reserved name.
\<close>

fun snapshot ::
  "StrategyTemplate \<Rightarrow> string list \<Rightarrow> (string \<times> pyval) list \<Rightarrow>
     (error + (string \<times> pyval) list) option" where
  "snapshot self [] acc = Some (Inr acc)"
| "snapshot self (name # names) acc =
     (case getattr self name of
        None \<Rightarrow> None
      | Some (Inl e) \<Rightarrow> Some (Inl e)
      | Some (Inr v) \<Rightarrow> snapshot self names (AList.update name v acc))"

definition get_variables ::
  "StrategyTemplate \<Rightarrow> (error + (string \<times> pyval) list) option \<times> StrategyTemplate" where
  "get_variables self =
     (case variables self of
        None \<Rightarrow> (Some (Inl TypeError), self)
      | Some names \<Rightarrow> (snapshot self names [], self))"

definition get_parameters ::
  "StrategyTemplate \<Rightarrow> (error + (string \<times> pyval) list) option \<times> StrategyTemplate" where
  "get_parameters self = (snapshot self (parameters self) [], self)"

text \<open>
  The hooks \<^verbatim>\<open>on_init\<close>, \<^verbatim>\<open>on_start\<close>, \<^verbatim>\<open>on_stop\<close>, \<^verbatim>\<open>on_tick\<close>, \<^verbatim>\<open>on_bars\<close> and
  \<^verbatim>\<open>on_trade\<close> of the template are \<^verbatim>\<open>pass\<close>.
\<close>

definition on_trade :: "TradeData \<Rightarrow> StrategyTemplate \<Rightarrow> StrategyTemplate" where
  "on_trade trade self = self"

text \<open>
  \<^verbatim>\<open>update_trade\<close>: \<^verbatim>\<open>self.pos_data[k] += v\<close> reads the entry through the default
  dictionary, adds, and stores; then the hook runs.
\<close>

definition update_trade :: "TradeData \<Rightarrow> StrategyTemplate \<Rightarrow> StrategyTemplate" where
  "update_trade trade self =
     (let (old, d) = defaultdict_getitem (pos_data self) (vt_symbol trade);
          self' = (if direction trade = LONG
                   then self\<lparr>pos_data := d(vt_symbol trade \<mapsto> old + volume trade)\<rparr>
                   else self\<lparr>pos_data := d(vt_symbol trade \<mapsto> old - volume trade)\<rparr>)
      in on_trade trade self')"

text \<open>\<^verbatim>\<open>get_pos\<close> returns its value and leaves the instance as it is.\<close>

definition get_pos :: "string \<Rightarrow> StrategyTemplate \<Rightarrow> int \<times> StrategyTemplate" where
  "get_pos symbol self = (dict_get (pos_data self) symbol 0, self)"

text \<open>
  The order callback. The class body defines \<^verbatim>\<open>on_order\<close> twice: the second definition
  (line 135) replaces the first, the \<^verbatim>\<open>pass\<close> hook of line 122, in the class, so the
  call \<^verbatim>\<open>self.on_order(order)\<close> in its last line is a call of itself. \<open>depth\<close> is the
  number of frames the interpreter still allows; a call with none left raises
  \<^verbatim>\<open>RecursionError\<close>. An exception leaves the instance as it was changed so far.
\<close>

fun on_order :: "nat \<Rightarrow> OrderData \<Rightarrow> StrategyTemplate \<Rightarrow> (error + unit) \<times> StrategyTemplate" where
  "on_order 0 order self = (Inl RecursionError, self)"
| "on_order (Suc depth) order self =
     (if \<not> is_active order \<and> vt_orderid order \<in> active_orderids self
      then (case set_remove (active_orderids self) (vt_orderid order) of
              Inl e \<Rightarrow> (Inl e, self)
            | Inr ids \<Rightarrow> on_order depth order (self\<lparr>active_orderids := ids\<rparr>))
      else on_order depth order self)"

text \<open>\<^verbatim>\<open>send_order\<close> and its four wrappers.\<close>

definition send_order ::
  "StrategyEngine \<Rightarrow> string \<Rightarrow> Direction \<Rightarrow> Offset \<Rightarrow> real \<Rightarrow> real \<Rightarrow> bool \<Rightarrow> bool \<Rightarrow>
     StrategyTemplate \<Rightarrow> string list \<times> StrategyTemplate" where
  "send_order engine symbol dir offs price vol lock net self =
     (if \<not> trading self then ([], self)
      else
        let calls = strategy_engine self @ [SendOrder symbol dir offs price vol lock net];
            vt_orderids = send_order_ids engine calls
        in (vt_orderids,
            self\<lparr>strategy_engine := calls,
                 active_orderids := active_orderids self \<union> set vt_orderids\<rparr>))"

definition buy ::
  "StrategyEngine \<Rightarrow> string \<Rightarrow> real \<Rightarrow> real \<Rightarrow> bool \<Rightarrow> bool \<Rightarrow>
     StrategyTemplate \<Rightarrow> string list \<times> StrategyTemplate" where
  "buy engine symbol price vol lock net self =
     send_order engine symbol LONG OPEN price vol lock net self"

definition sell ::
  "StrategyEngine \<Rightarrow> string \<Rightarrow> real \<Rightarrow> real \<Rightarrow> bool \<Rightarrow> bool \<Rightarrow>
     StrategyTemplate \<Rightarrow> string list \<times> StrategyTemplate" where
  "sell engine symbol price vol lock net self =
     send_order engine symbol SHORT CLOSE price vol lock net self"

definition short ::
  "StrategyEngine \<Rightarrow> string \<Rightarrow> real \<Rightarrow> real \<Rightarrow> bool \<Rightarrow> bool \<Rightarrow>
     StrategyTemplate \<Rightarrow> string list \<times> StrategyTemplate" where
  "short engine symbol price vol lock net self =
     send_order engine symbol SHORT OPEN price vol lock net self"

definition cover ::
  "StrategyEngine \<Rightarrow> string \<Rightarrow> real \<Rightarrow> real \<Rightarrow> bool \<Rightarrow> bool \<Rightarrow>
     StrategyTemplate \<Rightarrow> string list \<times> StrategyTemplate" where
  "cover engine symbol price vol lock net self =
     send_order engine symbol LONG CLOSE price vol lock net self"

text \<open>
  \<^verbatim>\<open>cancel_order\<close>: while trading, the request goes to the engine, and the active-order
  set is what the engine's call leaves of it.
\<close>

definition cancel_order :: "StrategyEngine \<Rightarrow> string \<Rightarrow> StrategyTemplate \<Rightarrow> StrategyTemplate" where
  "cancel_order engine orderid self =
     (if trading self
      then self\<lparr>strategy_engine := strategy_engine self @ [CancelOrder orderid],
                active_orderids := cancel_order_sync engine orderid (active_orderids self)\<rparr>
      else self)"

text \<open>
  \<^verbatim>\<open>cancel_all\<close>: \<^verbatim>\<open>for vt_orderid in self.active_orderids\<close> iterates the set itself. The
  iterator remembers the size of the set when the loop starts and, each time it is asked
  for the next member (also the last time, when none is left), raises \<^verbatim>\<open>RuntimeError\<close>
  if the set has another size now. \<open>entries\<close> is the order in which the set's table holds
  the members when the loop starts; an entry removed meanwhile is not yielded. (Members
  added meanwhile, which the iterator may or may not yield, are not modelled.)
\<close>

fun cancel_all_loop ::
  "StrategyEngine \<Rightarrow> nat \<Rightarrow> string list \<Rightarrow> StrategyTemplate \<Rightarrow> (error + unit) \<times> StrategyTemplate" where
  "cancel_all_loop engine used [] self =
     (if card (active_orderids self) \<noteq> used then (Inl RuntimeError, self) else (Inr (), self))"
| "cancel_all_loop engine used (orderid # entries) self =
     (if card (active_orderids self) \<noteq> used then (Inl RuntimeError, self)
      else if orderid \<notin> active_orderids self then cancel_all_loop engine used entries self
      else cancel_all_loop engine used entries (cancel_order engine orderid self))"

definition cancel_all ::
  "StrategyEngine \<Rightarrow> string list \<Rightarrow> StrategyTemplate \<Rightarrow> (error + unit) \<times> StrategyTemplate" where
  "cancel_all engine entries self =
     cancel_all_loop engine (card (active_orderids self)) entries self"

section \<open>The stop order\<close>

datatype StopOrderStatus = WAITING | CANCELLED | TRIGGERED

text \<open>
  Modelled from the spec: the enumeration \<^verbatim>\<open>Exchange\<close> of \<^verbatim>\<open>vnpy.trader.constant\<close>; a
  member is given by its value, the exchange's identifier string.
\<close>

record Exchange =
  exchange_value :: string

text \<open>A point in time; the stop order only stores it.\<close>

type_synonym datetime = int

text \<open>
  List objects live in a store, so that two stop orders can be asked whether they hold
  the same list: \<open>list()\<close> allocates an empty list at an address not used before.
\<close>

type_synonym ref = nat

record store =
  next_ref :: ref
  lists :: "ref \<rightharpoonup> string list"

definition new_list :: "store \<Rightarrow> ref \<times> store" where
  "new_list h =
     (next_ref h, h\<lparr>next_ref := Suc (next_ref h), lists := (lists h)(next_ref h \<mapsto> [])\<rparr>)"

definition list_append :: "ref \<Rightarrow> string \<Rightarrow> store \<Rightarrow> error + store" where
  "list_append r x h =
     (case lists h r of
        None \<Rightarrow> Inl AttributeError
      | Some xs \<Rightarrow> Inr (h\<lparr>lists := (lists h)(r \<mapsto> xs @ [x])\<rparr>))"

text \<open>
  The data class. The fields whose names the trade data and the strategy template also
  use carry the suffix \<open>_so\<close>.
\<close>

record StopOrder =
  symbol :: string
  exchange :: Exchange
  direction_so :: Direction
  offset :: Offset
  price :: real
  volume_so :: real
  stop_orderid :: string
  strategy_name_so :: string
  datetime :: datetime
  vt_orderids :: ref
  status :: StopOrderStatus
  reason :: string
  vt_symbol_so :: string

text \<open>
  \<^verbatim>\<open>__post_init__\<close>: the formatted string \<^verbatim>\<open>f"{self.symbol}.{self.exchange.value}"\<close>.
\<close>

definition post_init :: "StopOrder \<Rightarrow> StopOrder" where
  "post_init self = self\<lparr>vt_symbol_so := symbol self @ ''.'' @ exchange_value (exchange self)\<rparr>"

text \<open>
  The constructor the data class generates: nine required arguments and three with
  defaults, \<open>None\<close> for one the caller leaves out. The default of \<^verbatim>\<open>vt_orderids\<close> is a
  factory, called at each construction; then \<^verbatim>\<open>__post_init__\<close> runs.
\<close>

definition StopOrder_init ::
  "string \<Rightarrow> Exchange \<Rightarrow> Direction \<Rightarrow> Offset \<Rightarrow> real \<Rightarrow> real \<Rightarrow> string \<Rightarrow> string \<Rightarrow> datetime \<Rightarrow>
     ref option \<Rightarrow> StopOrderStatus option \<Rightarrow> string option \<Rightarrow> store \<Rightarrow> StopOrder \<times> store" where
  "StopOrder_init symb exch dir offs pr vol sid sname dt ids_arg status_arg reason_arg h =
     (let (ids, h') = (case ids_arg of None \<Rightarrow> new_list h | Some r \<Rightarrow> (r, h))
      in (post_init
            \<lparr>symbol = symb, exchange = exch, direction_so = dir, offset = offs, price = pr,
             volume_so = vol, stop_orderid = sid, strategy_name_so = sname, datetime = dt,
             vt_orderids = ids,
             status = (case status_arg of None \<Rightarrow> WAITING | Some st \<Rightarrow> st),
             reason = (case reason_arg of None \<Rightarrow> [] | Some r \<Rightarrow> r),
             vt_symbol_so = []\<rparr>,
          h'))"

subsection \<open>The life cycle of a stop order\<close>

text \<open>
  Modelled from the spec: the manager of stop orders, which the sources do not contain
  (base.py declares the status values and the data class only). Per sections 3 and 4.2
  of the specification: a waiting stop order whose trigger condition the current price
  meets (buy-stop: price at or above the trigger; sell-stop: price at or below it)
  becomes triggered; a stop order is cancelled only from waiting, on an explicit
  cancellation or when its strategy shuts down; triggered and cancelled are terminal.
\<close>

datatype stop_event = PriceTick real | Cancellation

definition trigger_met :: "StopOrder \<Rightarrow> real \<Rightarrow> bool" where
  "trigger_met so p =
     (case direction_so so of
        LONG \<Rightarrow> price so \<le> p
      | SHORT \<Rightarrow> p \<le> price so
      | NET \<Rightarrow> False)"

fun stop_step :: "stop_event \<Rightarrow> StopOrder \<Rightarrow> StopOrder" where
  "stop_step (PriceTick p) so =
     (if status so = WAITING \<and> trigger_met so p then so\<lparr>status := TRIGGERED\<rparr> else so)"
| "stop_step Cancellation so =
     (if status so = WAITING then so\<lparr>status := CANCELLED\<rparr> else so)"

text \<open>The statuses a stop order goes through under a sequence of events, the first its own.\<close>

fun status_trace :: "stop_event list \<Rightarrow> StopOrder \<Rightarrow> StopOrderStatus list" where
  "status_trace [] so = [status so]"
| "status_trace (e # es) so = status so # status_trace es (stop_step e so)"

text \<open>The number of transitions to triggered in a sequence of statuses.\<close>

fun triggerings :: "StopOrderStatus list \<Rightarrow> nat" where
  "triggerings (a # b # rest) =
     (if a \<noteq> TRIGGERED \<and> b = TRIGGERED then 1 else 0) + triggerings (b # rest)"
| "triggerings _ = 0"

section \<open>Properties of the strategy template\<close>

subsection \<open>Attribute assignment\<close>

text \<open>
  One assignment, attribute by attribute: what it binds, what a later read of the same
  name returns, and that every other attribute keeps its value.
\<close>

lemma setattr_plain:
  assumes "\<not> reserved m" and "m \<notin> set field_names"
  shows "setattr m v s = Some (s\<lparr>attrs := (attrs s)(m \<mapsto> v)\<rparr>)"
proof -
  have "m \<noteq> ''strategy_name''" "m \<noteq> ''vt_symbols''" "m \<noteq> ''inited''" "m \<noteq> ''trading''"
    "m \<noteq> ''pos_data''" "m \<noteq> ''active_orderids''" "m \<noteq> ''variables''" "m \<noteq> ''parameters''"
    using assms(2) unfolding field_names_def by auto
  with assms(1) show ?thesis unfolding setattr_def by (simp only: if_False)
qed

lemma not_reserved_fields:
  "\<not> reserved ''strategy_name''" "\<not> reserved ''vt_symbols''" "\<not> reserved ''inited''"
  "\<not> reserved ''trading''" "\<not> reserved ''pos_data''" "\<not> reserved ''active_orderids''"
  "\<not> reserved ''variables''" "\<not> reserved ''parameters''"
  by (simp_all add: reserved_def template_methods_def)

lemma setattr_fields:
  "setattr ''strategy_name'' v s = map_option (\<lambda>x. s\<lparr>strategy_name := x\<rparr>) (str_of v)"
  "setattr ''vt_symbols'' v s = map_option (\<lambda>xs. s\<lparr>vt_symbols := xs\<rparr>) (names_of v)"
  "setattr ''inited'' v s = (case v of PyBool b \<Rightarrow> Some (s\<lparr>inited := b\<rparr>) | _ \<Rightarrow> None)"
  "setattr ''trading'' v s = (case v of PyBool b \<Rightarrow> Some (s\<lparr>trading := b\<rparr>) | _ \<Rightarrow> None)"
  "setattr ''pos_data'' v s = (case v of PyPosData d \<Rightarrow> Some (s\<lparr>pos_data := d\<rparr>) | _ \<Rightarrow> None)"
  "setattr ''active_orderids'' v s =
     (case v of PyIdSet ids \<Rightarrow> Some (s\<lparr>active_orderids := ids\<rparr>) | _ \<Rightarrow> None)"
  "setattr ''variables'' v s =
     (case v of PyNone \<Rightarrow> Some (s\<lparr>variables := None\<rparr>)
      | _ \<Rightarrow> map_option (\<lambda>ns. s\<lparr>variables := Some ns\<rparr>) (names_of v))"
  "setattr ''parameters'' v s = map_option (\<lambda>ns. s\<lparr>parameters := ns\<rparr>) (names_of v)"
  unfolding setattr_def by (simp_all add: not_reserved_fields)



lemma those_str_of: "those (map str_of xs) = Some ns \<Longrightarrow> map PyStr ns = xs"
proof (induction xs arbitrary: ns)
  case Nil
  then show ?case by simp
next
  case (Cons x xs)
  then show ?case
    by (cases x) (auto split: option.splits)
qed

lemma names_of_list: "names_of v = Some ns \<Longrightarrow> v = PyList (map PyStr ns)"
  by (cases v) (auto dest: those_str_of)

lemma str_of_str: "str_of v = Some x \<Longrightarrow> v = PyStr x"
  by (cases v) auto

lemma setattr_reserved: "reserved m \<Longrightarrow> setattr m v s = None"
  unfolding setattr_def by (simp only: if_True)

lemma setattr_not_reserved: "setattr m v s = Some s' \<Longrightarrow> \<not> reserved m"
  using setattr_reserved [of m v s] by (cases "reserved m") simp_all

lemma field_names_cases:
  "m \<in> set field_names \<Longrightarrow>
     m = ''strategy_name'' \<or> m = ''vt_symbols'' \<or> m = ''inited'' \<or> m = ''trading'' \<or>
     m = ''pos_data'' \<or> m = ''active_orderids'' \<or> m = ''variables'' \<or> m = ''parameters''"
  unfolding field_names_def by simp



lemma setattr_strategy_name:
  "setattr ''strategy_name'' v s = Some s' \<Longrightarrow>
     v = PyStr (strategy_name s') \<and> s' = s\<lparr>strategy_name := strategy_name s'\<rparr>"
  by (cases v) (auto simp: setattr_fields)

lemma setattr_vt_symbols:
  "setattr ''vt_symbols'' v s = Some s' \<Longrightarrow>
     v = PyList (map PyStr (vt_symbols s')) \<and> s' = s\<lparr>vt_symbols := vt_symbols s'\<rparr>"
  by (auto simp: setattr_fields dest: names_of_list)

lemma setattr_inited:
  "setattr ''inited'' v s = Some s' \<Longrightarrow>
     v = PyBool (inited s') \<and> s' = s\<lparr>inited := inited s'\<rparr>"
  by (cases v) (auto simp: setattr_fields)

lemma setattr_trading:
  "setattr ''trading'' v s = Some s' \<Longrightarrow>
     v = PyBool (trading s') \<and> s' = s\<lparr>trading := trading s'\<rparr>"
  by (cases v) (auto simp: setattr_fields)

lemma setattr_pos_data:
  "setattr ''pos_data'' v s = Some s' \<Longrightarrow>
     v = PyPosData (pos_data s') \<and> s' = s\<lparr>pos_data := pos_data s'\<rparr>"
  by (cases v) (auto simp: setattr_fields)

lemma setattr_active_orderids:
  "setattr ''active_orderids'' v s = Some s' \<Longrightarrow>
     v = PyIdSet (active_orderids s') \<and> s' = s\<lparr>active_orderids := active_orderids s'\<rparr>"
  by (cases v) (auto simp: setattr_fields)

lemma setattr_variables:
  "setattr ''variables'' v s = Some s' \<Longrightarrow>
     v = (case variables s' of None \<Rightarrow> PyNone | Some ns \<Rightarrow> PyList (map PyStr ns))
     \<and> s' = s\<lparr>variables := variables s'\<rparr>"
  by (cases v) (auto simp: setattr_fields dest: those_str_of)

lemma setattr_parameters:
  "setattr ''parameters'' v s = Some s' \<Longrightarrow>
     v = PyList (map PyStr (parameters s')) \<and> s' = s\<lparr>parameters := parameters s'\<rparr>"
  by (auto simp: setattr_fields dest: names_of_list)

lemma setattr_plain_Some:
  assumes "setattr m v s = Some s'" and "m \<notin> set field_names"
  shows "s' = s\<lparr>attrs := (attrs s)(m \<mapsto> v)\<rparr>"
proof -
  have "\<not> reserved m" using assms(1) by (rule setattr_not_reserved)
  then have "setattr m v s = Some (s\<lparr>attrs := (attrs s)(m \<mapsto> v)\<rparr>)"
    using assms(2) by (rule setattr_plain)
  with assms(1) show ?thesis by simp
qed


lemma setattr_frame:
  assumes "setattr m v s = Some s'"
  shows "(m \<noteq> ''strategy_name'' \<longrightarrow> strategy_name s' = strategy_name s) \<and>
     (m \<noteq> ''vt_symbols'' \<longrightarrow> vt_symbols s' = vt_symbols s) \<and>
     (m \<noteq> ''inited'' \<longrightarrow> inited s' = inited s) \<and>
     (m \<noteq> ''trading'' \<longrightarrow> trading s' = trading s) \<and>
     (m \<noteq> ''pos_data'' \<longrightarrow> pos_data s' = pos_data s) \<and>
     (m \<noteq> ''active_orderids'' \<longrightarrow> active_orderids s' = active_orderids s) \<and>
     (m \<noteq> ''variables'' \<longrightarrow> variables s' = variables s) \<and>
     (m \<noteq> ''parameters'' \<longrightarrow> parameters s' = parameters s) \<and>
     (\<forall>n. n \<noteq> m \<longrightarrow> attrs s' n = attrs s n) \<and>
     class_attrs s' = class_attrs s \<and> strategy_engine s' = strategy_engine s"
proof (cases "m \<in> set field_names")
  case False
  with assms have e: "s' = s\<lparr>attrs := (attrs s)(m \<mapsto> v)\<rparr>"
    by (rule setattr_plain_Some)
  show ?thesis unfolding e by simp
next
  case True
  from field_names_cases [OF True] show ?thesis
  proof (elim disjE)
    assume m: "m = ''strategy_name''"
    with assms obtain x where e: "s' = s\<lparr>strategy_name := x\<rparr>"
      using setattr_strategy_name [of v s s'] by blast
    show ?thesis unfolding e using m by simp
  next
    assume m: "m = ''vt_symbols''"
    with assms obtain x where e: "s' = s\<lparr>vt_symbols := x\<rparr>"
      using setattr_vt_symbols [of v s s'] by blast
    show ?thesis unfolding e using m by simp
  next
    assume m: "m = ''inited''"
    with assms obtain x where e: "s' = s\<lparr>inited := x\<rparr>"
      using setattr_inited [of v s s'] by blast
    show ?thesis unfolding e using m by simp
  next
    assume m: "m = ''trading''"
    with assms obtain x where e: "s' = s\<lparr>trading := x\<rparr>"
      using setattr_trading [of v s s'] by blast
    show ?thesis unfolding e using m by simp
  next
    assume m: "m = ''pos_data''"
    with assms obtain x where e: "s' = s\<lparr>pos_data := x\<rparr>"
      using setattr_pos_data [of v s s'] by blast
    show ?thesis unfolding e using m by simp
  next
    assume m: "m = ''active_orderids''"
    with assms obtain x where e: "s' = s\<lparr>active_orderids := x\<rparr>"
      using setattr_active_orderids [of v s s'] by blast
    show ?thesis unfolding e using m by simp
  next
    assume m: "m = ''variables''"
    with assms obtain x where e: "s' = s\<lparr>variables := x\<rparr>"
      using setattr_variables [of v s s'] by blast
    show ?thesis unfolding e using m by simp
  next
    assume m: "m = ''parameters''"
    with assms obtain x where e: "s' = s\<lparr>parameters := x\<rparr>"
      using setattr_parameters [of v s s'] by blast
    show ?thesis unfolding e using m by simp
  qed
qed


subsection \<open>Settings\<close>

text \<open>
  The loop of \<^verbatim>\<open>update_setting\<close>: a declared parameter that is a key of the setting
  reads as the setting's value afterwards, every other attribute reads as before, and the
  loop goes through where each of its assignments does.
\<close>

lemma loop_preserves:
  assumes step: "\<And>m v s s'. setattr m v s = Some s' \<Longrightarrow> m \<noteq> f \<Longrightarrow> P s' = P s"
    and "update_setting_loop setting ns s = Some s'"
    and "f \<notin> set ns \<or> setting f = None"
  shows "P s' = P s"
  using assms(2,3)
proof (induction ns arbitrary: s)
  case Nil
  then show ?case by simp
next
  case (Cons a ns)
  show ?case
  proof (cases "setting a")
    case None
    with Cons.prems have "update_setting_loop setting ns s = Some s'" by simp
    moreover from Cons.prems(2) have "f \<notin> set ns \<or> setting f = None" by auto
    ultimately show ?thesis by (rule Cons.IH)
  next
    case (Some v)
    with Cons.prems(1) obtain s1 where s1: "setattr a v s = Some s1"
      and rest: "update_setting_loop setting ns s1 = Some s'"
      by (auto split: option.splits)
    from Cons.prems(2) Some have "a \<noteq> f" by auto
    with s1 have "P s1 = P s" by (rule step)
    moreover from Cons.prems(2) have "f \<notin> set ns \<or> setting f = None" by auto
    with rest have "P s' = P s1" by (rule Cons.IH)
    ultimately show ?thesis by simp
  qed
qed

lemma loop_rest:
  "update_setting_loop setting ns s = Some s' \<Longrightarrow>
     class_attrs s' = class_attrs s \<and> strategy_engine s' = strategy_engine s"
proof (induction ns arbitrary: s)
  case Nil
  then show ?case by simp
next
  case (Cons a ns)
  show ?case
  proof (cases "setting a")
    case None
    with Cons.prems have "update_setting_loop setting ns s = Some s'" by simp
    then show ?thesis by (rule Cons.IH)
  next
    case (Some v)
    with Cons.prems obtain s1 where s1: "setattr a v s = Some s1"
      and rest: "update_setting_loop setting ns s1 = Some s'"
      by (auto split: option.splits)
    from setattr_frame [OF s1] Cons.IH [OF rest] show ?thesis by simp
  qed
qed





subsection \<open>Construction\<close>

text \<open>
  \<^verbatim>\<open>__init__\<close> leaves the values it assigns in every attribute that the setting does not
  rebind, that is, every attribute that is not both a declared parameter and a key of
  the setting.
\<close>

lemma loop_empty_setting: "update_setting_loop Map.empty ns s = Some s"
  by (induction ns) simp_all

lemma init_loop:
  "init cls name symbols setting =
     update_setting_loop setting (cls_parameters cls)
       \<lparr>strategy_engine = [], strategy_name = name, vt_symbols = symbols, inited = False,
        trading = False, pos_data = Map.empty, active_orderids = {}, variables = None,
        parameters = cls_parameters cls, class_attrs = cls_attrs cls, attrs = Map.empty\<rparr>"
  by (simp add: init_def update_setting_def list_extend_def)

lemma init_empty_setting:
  "init cls name symbols Map.empty =
     Some \<lparr>strategy_engine = [], strategy_name = name, vt_symbols = symbols, inited = False,
        trading = False, pos_data = Map.empty, active_orderids = {}, variables = None,
        parameters = cls_parameters cls, class_attrs = cls_attrs cls, attrs = Map.empty\<rparr>"
  by (simp only: init_loop loop_empty_setting)

lemma init_strategy_engine:
  "init cls name symbols setting = Some self \<Longrightarrow> strategy_engine self = []"
  unfolding init_loop by (drule loop_rest) simp

lemma loop_inited:
  assumes "update_setting_loop setting ns s = Some s'"
    and "''inited'' \<notin> set ns \<or> setting ''inited'' = None"
  shows "inited s' = inited s"
proof (rule loop_preserves [where P = inited and f = "''inited''"])
  fix m v t t'
  assume a: "setattr m v t = Some t'" and b: "m \<noteq> ''inited''"
  from setattr_frame [OF a] b show "inited t' = inited t" by simp
next
  show "update_setting_loop setting ns s = Some s'" by (rule assms(1))
next
  show "''inited'' \<notin> set ns \<or> setting ''inited'' = None" by (rule assms(2))
qed

lemma loop_trading:
  assumes "update_setting_loop setting ns s = Some s'"
    and "''trading'' \<notin> set ns \<or> setting ''trading'' = None"
  shows "trading s' = trading s"
proof (rule loop_preserves [where P = trading and f = "''trading''"])
  fix m v t t'
  assume a: "setattr m v t = Some t'" and b: "m \<noteq> ''trading''"
  from setattr_frame [OF a] b show "trading t' = trading t" by simp
next
  show "update_setting_loop setting ns s = Some s'" by (rule assms(1))
next
  show "''trading'' \<notin> set ns \<or> setting ''trading'' = None" by (rule assms(2))
qed

lemma loop_pos_data:
  assumes "update_setting_loop setting ns s = Some s'"
    and "''pos_data'' \<notin> set ns \<or> setting ''pos_data'' = None"
  shows "pos_data s' = pos_data s"
proof (rule loop_preserves [where P = pos_data and f = "''pos_data''"])
  fix m v t t'
  assume a: "setattr m v t = Some t'" and b: "m \<noteq> ''pos_data''"
  from setattr_frame [OF a] b show "pos_data t' = pos_data t" by simp
next
  show "update_setting_loop setting ns s = Some s'" by (rule assms(1))
next
  show "''pos_data'' \<notin> set ns \<or> setting ''pos_data'' = None" by (rule assms(2))
qed

lemma loop_active_orderids:
  assumes "update_setting_loop setting ns s = Some s'"
    and "''active_orderids'' \<notin> set ns \<or> setting ''active_orderids'' = None"
  shows "active_orderids s' = active_orderids s"
proof (rule loop_preserves [where P = active_orderids and f = "''active_orderids''"])
  fix m v t t'
  assume a: "setattr m v t = Some t'" and b: "m \<noteq> ''active_orderids''"
  from setattr_frame [OF a] b show "active_orderids t' = active_orderids t" by simp
next
  show "update_setting_loop setting ns s = Some s'" by (rule assms(1))
next
  show "''active_orderids'' \<notin> set ns \<or> setting ''active_orderids'' = None" by (rule assms(2))
qed

lemma loop_variables:
  assumes "update_setting_loop setting ns s = Some s'"
    and "''variables'' \<notin> set ns \<or> setting ''variables'' = None"
  shows "variables s' = variables s"
proof (rule loop_preserves [where P = variables and f = "''variables''"])
  fix m v t t'
  assume a: "setattr m v t = Some t'" and b: "m \<noteq> ''variables''"
  from setattr_frame [OF a] b show "variables t' = variables t" by simp
next
  show "update_setting_loop setting ns s = Some s'" by (rule assms(1))
next
  show "''variables'' \<notin> set ns \<or> setting ''variables'' = None" by (rule assms(2))
qed

lemma init_inited:
  assumes "init cls name symbols setting = Some self"
    and "''inited'' \<notin> set (cls_parameters cls) \<or> ''inited'' \<notin> dom setting"
  shows "\<not> inited self"
proof -
  from assms(2) have "''inited'' \<notin> set (cls_parameters cls) \<or> setting ''inited'' = None"
    by (simp add: domIff)
  from loop_inited [OF assms(1) [unfolded init_loop] this] show ?thesis by simp
qed

lemma init_trading:
  assumes "init cls name symbols setting = Some self"
    and "''trading'' \<notin> set (cls_parameters cls) \<or> ''trading'' \<notin> dom setting"
  shows "\<not> trading self"
proof -
  from assms(2) have "''trading'' \<notin> set (cls_parameters cls) \<or> setting ''trading'' = None"
    by (simp add: domIff)
  from loop_trading [OF assms(1) [unfolded init_loop] this] show ?thesis by simp
qed

lemma init_pos_data:
  assumes "init cls name symbols setting = Some self"
    and "''pos_data'' \<notin> set (cls_parameters cls) \<or> ''pos_data'' \<notin> dom setting"
  shows "pos_data self = Map.empty"
proof -
  from assms(2) have "''pos_data'' \<notin> set (cls_parameters cls) \<or> setting ''pos_data'' = None"
    by (simp add: domIff)
  from loop_pos_data [OF assms(1) [unfolded init_loop] this] show ?thesis by simp
qed

lemma init_active_orderids:
  assumes "init cls name symbols setting = Some self"
    and "''active_orderids'' \<notin> set (cls_parameters cls) \<or> ''active_orderids'' \<notin> dom setting"
  shows "active_orderids self = {}"
proof -
  from assms(2) have "''active_orderids'' \<notin> set (cls_parameters cls) \<or> setting ''active_orderids'' = None"
    by (simp add: domIff)
  from loop_active_orderids [OF assms(1) [unfolded init_loop] this] show ?thesis by simp
qed

lemma init_variables:
  assumes "init cls name symbols setting = Some self"
    and "''variables'' \<notin> set (cls_parameters cls) \<or> ''variables'' \<notin> dom setting"
  shows "variables self = None"
proof -
  from assms(2) have "''variables'' \<notin> set (cls_parameters cls) \<or> setting ''variables'' = None"
    by (simp add: domIff)
  from loop_variables [OF assms(1) [unfolded init_loop] this] show ?thesis by simp
qed

lemma init_demo:
  "init \<lparr>cls_parameters = [''fast''], cls_variables = [],
         cls_attrs = [''fast'' \<mapsto> PyInt 10]\<rparr>
     ''demo'' symbols [''fast'' \<mapsto> PyInt 5] =
   Some \<lparr>strategy_engine = [], strategy_name = ''demo'', vt_symbols = symbols,
         inited = False, trading = False, pos_data = Map.empty, active_orderids = {},
         variables = None, parameters = [''fast''],
         class_attrs = [''fast'' \<mapsto> PyInt 10], attrs = [''fast'' \<mapsto> PyInt 5]\<rparr>"
proof -
  have r: "\<not> reserved ''fast''" by (simp add: reserved_def template_methods_def)
  have f: "''fast'' \<notin> set field_names" by (simp add: field_names_def)
  show ?thesis by (simp add: init_loop setattr_plain [OF r f])
qed

subsection \<open>Positions\<close>

lemma get_pos_update_trade:
  "fst (get_pos K (update_trade t s)) =
     fst (get_pos K s) +
       (if vt_symbol t = K then (if direction t = LONG then volume t else - volume t) else 0)"
  by (simp add: get_pos_def update_trade_def on_trade_def defaultdict_getitem_def dict_get_def
      split: option.splits)

lemma get_pos_fold_update_trade:
  "fst (get_pos K (fold update_trade ts s)) =
     fst (get_pos K s) +
       (\<Sum>t\<leftarrow>filter (\<lambda>t. vt_symbol t = K) ts. if direction t = LONG then volume t else - volume t)"
  by (induction ts arbitrary: s) (simp_all add: get_pos_update_trade)

lemma pos_data_update_trade:
  "pos_data (update_trade t s) =
     (pos_data s)(vt_symbol t \<mapsto>
        fst (get_pos (vt_symbol t) s) + (if direction t = LONG then volume t else - volume t))"
  by (simp add: get_pos_def update_trade_def on_trade_def defaultdict_getitem_def dict_get_def
      split: option.splits)

lemma dom_pos_data_fold:
  "dom (pos_data (fold update_trade ts s)) = dom (pos_data s) \<union> vt_symbol ` set ts"
  by (induction ts arbitrary: s) (auto simp: pos_data_update_trade)

lemma pos_data_untraded:
  assumes "K \<notin> dom (pos_data s)" and "K \<notin> vt_symbol ` set ts"
  shows "pos_data (fold update_trade ts s) K = None"
proof -
  from assms have "K \<notin> dom (pos_data (fold update_trade ts s))"
    by (simp add: dom_pos_data_fold)
  then show ?thesis by (simp add: domIff)
qed

lemma get_pos_untraded:
  assumes "K \<notin> dom (pos_data s)" and "K \<notin> vt_symbol ` set ts"
  shows "fst (get_pos K (fold update_trade ts s)) = 0
         \<and> K \<notin> dom (pos_data (snd (get_pos K (fold update_trade ts s))))"
  using pos_data_untraded [OF assms] by (simp add: get_pos_def dict_get_def domIff)

text \<open>
  Claim C1. Volumes are integers, as the values of the position map
  \<^verbatim>\<open>pos_data: dict[str, int]\<close> are. For every sequence of trades delivered through
  \<^verbatim>\<open>update_trade\<close>, the position of an instrument \<open>K\<close> afterwards is its position before
  plus the sum of the signed volumes of the trades on \<open>K\<close>, a long trade counting its
  volume and any other trade the negated volume; the trades on other instruments do not
  enter the sum, however they are interleaved. On a newly constructed instance the
  position is that sum, provided the setting has not rebound the position map, which it
  does when \<^verbatim>\<open>pos_data\<close> is both a declared parameter and a key of the setting. One call
  of \<^verbatim>\<open>update_trade\<close> writes the entry of the trade's instrument, the old quantity plus
  the signed volume, and keeps the rest of the map.
\<close>

theorem update_trade_position:
  "fst (get_pos K (fold update_trade trades self)) =
     fst (get_pos K self) +
       (\<Sum>t\<leftarrow>filter (\<lambda>t. vt_symbol t = K) trades.
          if direction t = LONG then volume t else - volume t)
   \<and> (init cls name symbols setting = Some self
        \<and> (''pos_data'' \<notin> set (cls_parameters cls) \<or> ''pos_data'' \<notin> dom setting) \<longrightarrow>
      fst (get_pos K (fold update_trade trades self)) =
        (\<Sum>t\<leftarrow>filter (\<lambda>t. vt_symbol t = K) trades.
           if direction t = LONG then volume t else - volume t))
   \<and> pos_data (update_trade trade self) =
       (pos_data self)(vt_symbol trade \<mapsto>
          fst (get_pos (vt_symbol trade) self) +
            (if direction trade = LONG then volume trade else - volume trade))"
proof (intro conjI impI)
  show "fst (get_pos K (fold update_trade trades self)) =
     fst (get_pos K self) +
       (\<Sum>t\<leftarrow>filter (\<lambda>t. vt_symbol t = K) trades.
          if direction t = LONG then volume t else - volume t)"
    by (rule get_pos_fold_update_trade)
next
  assume "init cls name symbols setting = Some self
        \<and> (''pos_data'' \<notin> set (cls_parameters cls) \<or> ''pos_data'' \<notin> dom setting)"
  then have a: "init cls name symbols setting = Some self"
    and b: "''pos_data'' \<notin> set (cls_parameters cls) \<or> ''pos_data'' \<notin> dom setting"
    by simp_all
  from a b have "pos_data self = Map.empty" by (rule init_pos_data)
  then have "fst (get_pos K self) = 0" by (simp add: get_pos_def dict_get_def)
  then show "fst (get_pos K (fold update_trade trades self)) =
        (\<Sum>t\<leftarrow>filter (\<lambda>t. vt_symbol t = K) trades.
           if direction t = LONG then volume t else - volume t)"
    by (simp add: get_pos_fold_update_trade)
next
  show "pos_data (update_trade trade self) =
       (pos_data self)(vt_symbol trade \<mapsto>
          fst (get_pos (vt_symbol trade) self) +
            (if direction trade = LONG then volume trade else - volume trade))"
    by (rule pos_data_update_trade)
qed

theorem update_trade_position_witness:
  "init \<lparr>cls_parameters = [''fast''], cls_variables = [],
         cls_attrs = [''fast'' \<mapsto> PyInt 10]\<rparr>
     ''demo'' [''BTCUSDT.BINANCE'', ''ETHUSDT.BINANCE''] [''fast'' \<mapsto> PyInt 5] \<noteq> None
   \<and> ''pos_data'' \<notin> set (cls_parameters \<lparr>cls_parameters = [''fast''], cls_variables = [],
         cls_attrs = [''fast'' \<mapsto> PyInt 10]\<rparr>)
   \<and> fst (get_pos ''BTCUSDT.BINANCE''
     (fold update_trade
        [\<lparr>vt_symbol = ''BTCUSDT.BINANCE'', direction = LONG, volume = 2\<rparr>,
         \<lparr>vt_symbol = ''ETHUSDT.BINANCE'', direction = SHORT, volume = 1\<rparr>,
         \<lparr>vt_symbol = ''BTCUSDT.BINANCE'', direction = SHORT, volume = 5\<rparr>]
        (the (init \<lparr>cls_parameters = [''fast''], cls_variables = [],
                    cls_attrs = [''fast'' \<mapsto> PyInt 10]\<rparr>
           ''demo'' [''BTCUSDT.BINANCE'', ''ETHUSDT.BINANCE''] [''fast'' \<mapsto> PyInt 5])))) = - 3"
proof -
  let ?c = "\<lparr>cls_parameters = [''fast''], cls_variables = [],
         cls_attrs = [''fast'' \<mapsto> PyInt 10]\<rparr>"
  let ?i = "init ?c ''demo'' [''BTCUSDT.BINANCE'', ''ETHUSDT.BINANCE''] [''fast'' \<mapsto> PyInt 5]"
  let ?ts = "[\<lparr>vt_symbol = ''BTCUSDT.BINANCE'', direction = LONG, volume = 2\<rparr>,
         \<lparr>vt_symbol = ''ETHUSDT.BINANCE'', direction = SHORT, volume = 1\<rparr>,
         \<lparr>vt_symbol = ''BTCUSDT.BINANCE'', direction = SHORT, volume = 5\<rparr>]"
  have e: "?i = Some (the ?i)" by (simp add: init_demo)
  have ne: "?i \<noteq> None" by (simp add: init_demo)
  have h: "''pos_data'' \<notin> set (cls_parameters ?c) \<or> ''pos_data'' \<notin> dom [''fast'' \<mapsto> PyInt 5]"
    by simp
  note t = update_trade_position [of "''BTCUSDT.BINANCE''" ?ts "the ?i" ?c "''demo''"
      "[''BTCUSDT.BINANCE'', ''ETHUSDT.BINANCE'']" "[''fast'' \<mapsto> PyInt 5]"]
  have "fst (get_pos ''BTCUSDT.BINANCE'' (fold update_trade ?ts (the ?i))) =
        (\<Sum>t\<leftarrow>filter (\<lambda>t. vt_symbol t = ''BTCUSDT.BINANCE'') ?ts.
          if direction t = LONG then volume t else - volume t)"
    by (rule mp [OF t [THEN conjunct2, THEN conjunct1]]) (rule conjI [OF e h])
  also have "\<dots> = - 3" by simp
  finally have r: "fst (get_pos ''BTCUSDT.BINANCE'' (fold update_trade ?ts (the ?i))) = - 3" .
  have h1: "''pos_data'' \<notin> set (cls_parameters ?c)"
    by simp
  from ne h1 r show ?thesis by (intro conjI)
qed

text \<open>
  Claim C9. \<^verbatim>\<open>get_pos\<close> returns the quantity the position map records for the
  instrument, 0 when it records none, and leaves the instance unchanged. For an
  instrument that is no key of the map and no trade of which is delivered, it returns 0
  after the trades, and the instrument is no key of the map afterwards; so it is on a
  newly constructed instance, provided the setting has not rebound the position map
  (\<^verbatim>\<open>pos_data\<close> is not both a declared parameter and a key of the setting).
\<close>

theorem get_pos_recorded:
  "get_pos K self = ((case pos_data self K of None \<Rightarrow> 0 | Some q \<Rightarrow> q), self)
   \<and> (K \<notin> dom (pos_data self) \<and> K \<notin> vt_symbol ` set trades \<longrightarrow>
        fst (get_pos K (fold update_trade trades self)) = 0
        \<and> K \<notin> dom (pos_data (snd (get_pos K (fold update_trade trades self)))))
   \<and> (init cls name symbols setting = Some self
        \<and> (''pos_data'' \<notin> set (cls_parameters cls) \<or> ''pos_data'' \<notin> dom setting)
        \<and> K \<notin> vt_symbol ` set trades \<longrightarrow>
        fst (get_pos K (fold update_trade trades self)) = 0
        \<and> K \<notin> dom (pos_data (snd (get_pos K (fold update_trade trades self)))))"
proof (intro conjI)
  show "get_pos K self = ((case pos_data self K of None \<Rightarrow> 0 | Some q \<Rightarrow> q), self)"
    by (simp add: get_pos_def dict_get_def)
next
  show "K \<notin> dom (pos_data self) \<and> K \<notin> vt_symbol ` set trades \<longrightarrow>
        fst (get_pos K (fold update_trade trades self)) = 0
        \<and> K \<notin> dom (pos_data (snd (get_pos K (fold update_trade trades self))))"
  proof
    assume "K \<notin> dom (pos_data self) \<and> K \<notin> vt_symbol ` set trades"
    then have "K \<notin> dom (pos_data self)" and "K \<notin> vt_symbol ` set trades" by simp_all
    then show "fst (get_pos K (fold update_trade trades self)) = 0
        \<and> K \<notin> dom (pos_data (snd (get_pos K (fold update_trade trades self))))"
      by (rule get_pos_untraded)
  qed
next
  show "init cls name symbols setting = Some self
        \<and> (''pos_data'' \<notin> set (cls_parameters cls) \<or> ''pos_data'' \<notin> dom setting)
        \<and> K \<notin> vt_symbol ` set trades \<longrightarrow>
        fst (get_pos K (fold update_trade trades self)) = 0
        \<and> K \<notin> dom (pos_data (snd (get_pos K (fold update_trade trades self))))"
  proof
    assume "init cls name symbols setting = Some self
        \<and> (''pos_data'' \<notin> set (cls_parameters cls) \<or> ''pos_data'' \<notin> dom setting)
        \<and> K \<notin> vt_symbol ` set trades"
    then have a: "init cls name symbols setting = Some self"
      and b: "''pos_data'' \<notin> set (cls_parameters cls) \<or> ''pos_data'' \<notin> dom setting"
      and c: "K \<notin> vt_symbol ` set trades"
      by simp_all
    from a b have "pos_data self = Map.empty" by (rule init_pos_data)
    then have "K \<notin> dom (pos_data self)" by simp
    then show "fst (get_pos K (fold update_trade trades self)) = 0
        \<and> K \<notin> dom (pos_data (snd (get_pos K (fold update_trade trades self))))"
      using c by (rule get_pos_untraded)
  qed
qed

theorem get_pos_recorded_witness:
  "init \<lparr>cls_parameters = [''fast''], cls_variables = [], cls_attrs = [''fast'' \<mapsto> PyInt 10]\<rparr> ''demo'' [] [''fast'' \<mapsto> PyInt 5] \<noteq> None
   \<and> ''pos_data'' \<notin> set (cls_parameters \<lparr>cls_parameters = [''fast''], cls_variables = [], cls_attrs = [''fast'' \<mapsto> PyInt 10]\<rparr>)
   \<and> ''ETHUSDT.BINANCE'' \<notin>
       vt_symbol ` set [\<lparr>vt_symbol = ''BTCUSDT.BINANCE'', direction = LONG, volume = 2\<rparr>]
   \<and> fst (get_pos ''ETHUSDT.BINANCE''
       (fold update_trade [\<lparr>vt_symbol = ''BTCUSDT.BINANCE'', direction = LONG, volume = 2\<rparr>]
          (the (init \<lparr>cls_parameters = [''fast''], cls_variables = [], cls_attrs = [''fast'' \<mapsto> PyInt 10]\<rparr> ''demo'' [] [''fast'' \<mapsto> PyInt 5])))) = 0
   \<and> ''ETHUSDT.BINANCE'' \<notin> dom (pos_data (snd (get_pos ''ETHUSDT.BINANCE''
       (fold update_trade [\<lparr>vt_symbol = ''BTCUSDT.BINANCE'', direction = LONG, volume = 2\<rparr>]
          (the (init \<lparr>cls_parameters = [''fast''], cls_variables = [], cls_attrs = [''fast'' \<mapsto> PyInt 10]\<rparr> ''demo'' [] [''fast'' \<mapsto> PyInt 5]))))))"
proof -
  let ?i = "init \<lparr>cls_parameters = [''fast''], cls_variables = [], cls_attrs = [''fast'' \<mapsto> PyInt 10]\<rparr> ''demo'' [] [''fast'' \<mapsto> PyInt 5]"
  let ?t = "\<lparr>vt_symbol = ''BTCUSDT.BINANCE'', direction = LONG, volume = 2\<rparr>"
  have e: "?i = Some (the ?i)" by (simp add: init_demo)
  have ne: "?i \<noteq> None" by (simp add: init_demo)
  have h: "''pos_data'' \<notin> set (cls_parameters \<lparr>cls_parameters = [''fast''], cls_variables = [], cls_attrs = [''fast'' \<mapsto> PyInt 10]\<rparr>) \<or> ''pos_data'' \<notin> dom [''fast'' \<mapsto> PyInt 5]"
    by simp
  have k: "''ETHUSDT.BINANCE'' \<notin> vt_symbol ` set [?t]" by simp
  note t = get_pos_recorded [of "''ETHUSDT.BINANCE''" "the ?i" "[?t]" "\<lparr>cls_parameters = [''fast''], cls_variables = [], cls_attrs = [''fast'' \<mapsto> PyInt 10]\<rparr>" "''demo''" "[]"
      "[''fast'' \<mapsto> PyInt 5]"]
  have r: "fst (get_pos ''ETHUSDT.BINANCE'' (fold update_trade [?t] (the ?i))) = 0
        \<and> ''ETHUSDT.BINANCE'' \<notin>
            dom (pos_data (snd (get_pos ''ETHUSDT.BINANCE'' (fold update_trade [?t] (the ?i)))))"
    by (rule mp [OF t [THEN conjunct2, THEN conjunct2]]) (intro conjI e h k)
  have h1: "''pos_data'' \<notin> set (cls_parameters \<lparr>cls_parameters = [''fast''], cls_variables = [], cls_attrs = [''fast'' \<mapsto> PyInt 10]\<rparr>)"
    by simp
  from ne h1 k r show ?thesis by (intro conjI) simp_all
qed

subsection \<open>Order callbacks\<close>

lemma fst_on_order: "fst (on_order depth order s) = Inl RecursionError"
  by (induction depth arbitrary: s) (simp_all add: set_remove_def)

lemma snd_on_order_Suc:
  "snd (on_order (Suc depth) order s) =
     (if \<not> is_active order
      then s\<lparr>active_orderids := active_orderids s - {vt_orderid order}\<rparr> else s)"
proof (induction depth arbitrary: s)
  case 0
  show ?case by (simp add: set_remove_def)
next
  case (Suc d)
  have "snd (on_order (Suc (Suc d)) order s) =
          snd (on_order (Suc d) order
            (if \<not> is_active order \<and> vt_orderid order \<in> active_orderids s
             then s\<lparr>active_orderids := active_orderids s - {vt_orderid order}\<rparr> else s))"
    by (subst on_order.simps(2)) (simp add: set_remove_def del: on_order.simps)
  then show ?case by (simp add: Suc.IH del: on_order.simps)
qed

lemma snd_on_order:
  "snd (on_order depth order s) =
     (if 0 < depth \<and> \<not> is_active order
      then s\<lparr>active_orderids := active_orderids s - {vt_orderid order}\<rparr> else s)"
  by (cases depth) (simp_all add: snd_on_order_Suc del: on_order.simps(2))

lemma active_fold_on_order:
  "0 < depth \<Longrightarrow>
     active_orderids (fold (\<lambda>order s. snd (on_order depth order s)) orders s) =
       active_orderids s -
         set (map vt_orderid (filter (\<lambda>order. \<not> is_active order) orders))"
  by (induction orders arbitrary: s) (auto simp: snd_on_order)

text \<open>
  What the callback does to the active-order set. Let order callbacks be delivered one
  after the other through \<^verbatim>\<open>on_order\<close>, each at a depth that leaves the call at least
  one frame. The active-order set afterwards is the set before without the identifiers
  of the terminal callbacks. A terminal callback for a member removes that member and
  nothing else, and no later callback finds it in the set again. A terminal callback
  for an identifier that is not a member leaves the instance as it is, and the
  \<^verbatim>\<open>set.remove\<close> of line 140 is not reached, so no \<^verbatim>\<open>KeyError\<close> is raised. A callback
  with an active status leaves the instance as it is.
\<close>

lemma on_order_set_effect:
  assumes "0 < depth"
  shows "active_orderids (fold (\<lambda>order s. snd (on_order depth order s)) orders self) =
           active_orderids self -
             set (map vt_orderid (filter (\<lambda>order. \<not> is_active order) orders))
    \<and> (\<not> is_active order \<and> vt_orderid order \<in> active_orderids self \<longrightarrow>
           active_orderids (snd (on_order depth order self)) =
             active_orderids self - {vt_orderid order}
           \<and> vt_orderid order \<notin>
               active_orderids (fold (\<lambda>order s. snd (on_order depth order s)) later
                 (snd (on_order depth order self))))
    \<and> (\<not> is_active order \<and> vt_orderid order \<notin> active_orderids self \<longrightarrow>
           snd (on_order depth order self) = self
           \<and> fst (on_order depth order self) \<noteq> Inl KeyError)
    \<and> (is_active order \<longrightarrow> snd (on_order depth order self) = self)"
proof -
  have removed: "active_orderids (snd (on_order depth order self)) =
      active_orderids self - {vt_orderid order}" if "\<not> is_active order"
    using that assms by (simp add: snd_on_order)
  have gone: "vt_orderid order \<notin>
      active_orderids (fold (\<lambda>order s. snd (on_order depth order s)) later
        (snd (on_order depth order self)))" if "\<not> is_active order"
    using that assms by (simp add: active_fold_on_order removed)
  have same: "snd (on_order depth order self) = self"
    if "is_active order \<or> vt_orderid order \<notin> active_orderids self"
    using that by (auto simp: snd_on_order)
  show ?thesis
    using assms removed gone same by (simp add: active_fold_on_order fst_on_order)
qed

lemma on_order_set_effect_example:
  "(0::nat) < 1000
   \<and> active_orderids
       (fold (\<lambda>order s. snd (on_order 1000 order s))
          [\<lparr>vt_orderid = ''BTC-1'', is_active = True\<rparr>,
           \<lparr>vt_orderid = ''BTC-1'', is_active = False\<rparr>,
           \<lparr>vt_orderid = ''BTC-1'', is_active = False\<rparr>,
           \<lparr>vt_orderid = ''ETH-9'', is_active = False\<rparr>]
          (self\<lparr>trading := True, active_orderids := {''BTC-1'', ''BTC-2''}\<rparr>)) = {''BTC-2''}"
proof -
  have h: "(0::nat) < 1000" by simp
  let ?s = "self\<lparr>trading := True, active_orderids := {''BTC-1'', ''BTC-2''}\<rparr>"
  let ?os = "[\<lparr>vt_orderid = ''BTC-1'', is_active = True\<rparr>,
           \<lparr>vt_orderid = ''BTC-1'', is_active = False\<rparr>,
           \<lparr>vt_orderid = ''BTC-1'', is_active = False\<rparr>,
           \<lparr>vt_orderid = ''ETH-9'', is_active = False\<rparr>]"
  have "active_orderids (fold (\<lambda>order s. snd (on_order 1000 order s)) ?os ?s) =
          active_orderids ?s -
             set (map vt_orderid (filter (\<lambda>order. \<not> is_active order) ?os))"
    using h by (rule active_fold_on_order)
  also have "\<dots> = {''BTC-2''}" by auto
  finally show ?thesis using h by simp
qed

text \<open>
  Claim C2, on a terminal status for an identifier that is not tracked. The set is
  updated as the claim says, but the callback is an error: on any instance that is
  trading with \<^verbatim>\<open>BTC-1\<close> its only active order, a terminal callback for \<^verbatim>\<open>ETH-9\<close> leaves
  the instance as it is and ends in \<^verbatim>\<open>RecursionError\<close>, at every depth, because the last
  line of \<^verbatim>\<open>on_order\<close> calls \<^verbatim>\<open>on_order\<close>.
\<close>

theorem on_order_untracked_raises:
  "on_order depth \<lparr>vt_orderid = ''ETH-9'', is_active = False\<rparr>
     (self\<lparr>trading := True, active_orderids := {''BTC-1''}\<rparr>) =
   (Inl RecursionError, self\<lparr>trading := True, active_orderids := {''BTC-1''}\<rparr>)"
  by (simp add: prod_eq_iff fst_on_order snd_on_order)

text \<open>
  Claim C3, on the entry point for order updates. The template has no \<^verbatim>\<open>update_order\<close>;
  its entry point is the second \<^verbatim>\<open>on_order\<close>, whose last line calls \<^verbatim>\<open>on_order\<close> again:
  the call never reaches a hook and never returns a value. At every depth and for every
  callback it ends in \<^verbatim>\<open>RecursionError\<close>.
\<close>

theorem on_order_recursion:
  "fst (on_order depth order self) = Inl RecursionError"
  by (rule fst_on_order)

subsection \<open>Not trading\<close>

lemma cancel_all_loop_not_trading:
  "\<not> trading s \<Longrightarrow> cancel_all_loop engine (card (active_orderids s)) entries s = (Inr (), s)"
  by (induction entries) (simp_all add: cancel_order_def)

text \<open>
  Claim C4. While the trading flag is false, \<^verbatim>\<open>send_order\<close> and its four wrappers
  return the empty list and leave the instance, with the requests its engine has
  received and its active-order set, as it is; \<^verbatim>\<open>cancel_order\<close> and \<^verbatim>\<open>cancel_all\<close> leave
  it as it is too, so the engine receives no request. On a newly constructed instance
  the trading flag is false, provided \<^verbatim>\<open>trading\<close> is not both a declared parameter and a
  key of the setting, and the inited flag is false, provided \<^verbatim>\<open>inited\<close> is not both: the
  last statement of \<^verbatim>\<open>__init__\<close> applies the setting, which rebinds any attribute that
  the class declares as a parameter.
\<close>

theorem not_trading_no_request:
  "(\<not> trading self \<longrightarrow>
      send_order engine instrument dir offs pr vol lock net self = ([], self)
      \<and> buy engine instrument pr vol lock net self = ([], self)
      \<and> sell engine instrument pr vol lock net self = ([], self)
      \<and> short engine instrument pr vol lock net self = ([], self)
      \<and> cover engine instrument pr vol lock net self = ([], self)
      \<and> cancel_order engine orderid self = self
      \<and> cancel_all engine entries self = (Inr (), self))
   \<and> (init cls name symbols setting = Some inst
        \<and> (''trading'' \<notin> set (cls_parameters cls) \<or> ''trading'' \<notin> dom setting) \<longrightarrow>
      \<not> trading inst)
   \<and> (init cls name symbols setting = Some inst
        \<and> (''inited'' \<notin> set (cls_parameters cls) \<or> ''inited'' \<notin> dom setting) \<longrightarrow>
      \<not> inited inst)"
proof (intro conjI)
  show "\<not> trading self \<longrightarrow>
      send_order engine instrument dir offs pr vol lock net self = ([], self)
      \<and> buy engine instrument pr vol lock net self = ([], self)
      \<and> sell engine instrument pr vol lock net self = ([], self)
      \<and> short engine instrument pr vol lock net self = ([], self)
      \<and> cover engine instrument pr vol lock net self = ([], self)
      \<and> cancel_order engine orderid self = self
      \<and> cancel_all engine entries self = (Inr (), self)"
    by (simp add: send_order_def buy_def sell_def short_def cover_def cancel_order_def
        cancel_all_def cancel_all_loop_not_trading)
next
  show "init cls name symbols setting = Some inst
        \<and> (''trading'' \<notin> set (cls_parameters cls) \<or> ''trading'' \<notin> dom setting) \<longrightarrow>
      \<not> trading inst"
  proof
    assume "init cls name symbols setting = Some inst
        \<and> (''trading'' \<notin> set (cls_parameters cls) \<or> ''trading'' \<notin> dom setting)"
    then have "init cls name symbols setting = Some inst"
      and "''trading'' \<notin> set (cls_parameters cls) \<or> ''trading'' \<notin> dom setting"
      by simp_all
    then show "\<not> trading inst" by (rule init_trading)
  qed
next
  show "init cls name symbols setting = Some inst
        \<and> (''inited'' \<notin> set (cls_parameters cls) \<or> ''inited'' \<notin> dom setting) \<longrightarrow>
      \<not> inited inst"
  proof
    assume "init cls name symbols setting = Some inst
        \<and> (''inited'' \<notin> set (cls_parameters cls) \<or> ''inited'' \<notin> dom setting)"
    then have "init cls name symbols setting = Some inst"
      and "''inited'' \<notin> set (cls_parameters cls) \<or> ''inited'' \<notin> dom setting"
      by simp_all
    then show "\<not> inited inst" by (rule init_inited)
  qed
qed

theorem not_trading_no_request_witness:
  "init \<lparr>cls_parameters = [''fast''], cls_variables = [], cls_attrs = [''fast'' \<mapsto> PyInt 10]\<rparr> ''demo'' [] [''fast'' \<mapsto> PyInt 5] \<noteq> None
   \<and> ''trading'' \<notin> set (cls_parameters \<lparr>cls_parameters = [''fast''], cls_variables = [], cls_attrs = [''fast'' \<mapsto> PyInt 10]\<rparr>)
   \<and> \<not> trading (the (init \<lparr>cls_parameters = [''fast''], cls_variables = [], cls_attrs = [''fast'' \<mapsto> PyInt 10]\<rparr> ''demo'' [] [''fast'' \<mapsto> PyInt 5]))
   \<and> send_order
        \<lparr>send_order_ids = (\<lambda>calls. [''BTC-2'']),
         cancel_order_sync = (\<lambda>orderid ids. ids - {orderid})\<rparr>
        ''BTCUSDT.BINANCE'' LONG OPEN 100 1 False False
        (the (init \<lparr>cls_parameters = [''fast''], cls_variables = [], cls_attrs = [''fast'' \<mapsto> PyInt 10]\<rparr> ''demo'' [] [''fast'' \<mapsto> PyInt 5])) =
       ([], the (init \<lparr>cls_parameters = [''fast''], cls_variables = [], cls_attrs = [''fast'' \<mapsto> PyInt 10]\<rparr> ''demo'' [] [''fast'' \<mapsto> PyInt 5]))
   \<and> cancel_all
        \<lparr>send_order_ids = (\<lambda>calls. [''BTC-2'']),
         cancel_order_sync = (\<lambda>orderid ids. ids - {orderid})\<rparr>
        []
        (the (init \<lparr>cls_parameters = [''fast''], cls_variables = [], cls_attrs = [''fast'' \<mapsto> PyInt 10]\<rparr> ''demo'' [] [''fast'' \<mapsto> PyInt 5])) =
       (Inr (), the (init \<lparr>cls_parameters = [''fast''], cls_variables = [], cls_attrs = [''fast'' \<mapsto> PyInt 10]\<rparr> ''demo'' [] [''fast'' \<mapsto> PyInt 5]))"
proof -
  let ?i = "init \<lparr>cls_parameters = [''fast''], cls_variables = [], cls_attrs = [''fast'' \<mapsto> PyInt 10]\<rparr> ''demo'' [] [''fast'' \<mapsto> PyInt 5]"
  let ?e = "\<lparr>send_order_ids = (\<lambda>calls. [''BTC-2'']),
         cancel_order_sync = (\<lambda>orderid ids. ids - {orderid})\<rparr>"
  have e: "?i = Some (the ?i)" by (simp add: init_demo)
  have ne: "?i \<noteq> None" by (simp add: init_demo)
  have h: "''trading'' \<notin> set (cls_parameters \<lparr>cls_parameters = [''fast''], cls_variables = [], cls_attrs = [''fast'' \<mapsto> PyInt 10]\<rparr>) \<or> ''trading'' \<notin> dom [''fast'' \<mapsto> PyInt 5]"
    by simp
  note t = not_trading_no_request [of "the ?i" ?e "''BTCUSDT.BINANCE''" LONG OPEN 100 1 False
      False _ "[]" "\<lparr>cls_parameters = [''fast''], cls_variables = [], cls_attrs = [''fast'' \<mapsto> PyInt 10]\<rparr>" "''demo''" "[]" "[''fast'' \<mapsto> PyInt 5]" "the ?i"]
  have nt: "\<not> trading (the ?i)"
    by (rule mp [OF t [THEN conjunct2, THEN conjunct1]]) (intro conjI e h)
  from mp [OF t [THEN conjunct1] nt]
  have r: "send_order ?e ''BTCUSDT.BINANCE'' LONG OPEN 100 1 False False (the ?i) = ([], the ?i)"
    and r': "cancel_all ?e [] (the ?i) = (Inr (), the ?i)"
    by simp_all
  have h1: "''trading'' \<notin> set (cls_parameters \<lparr>cls_parameters = [''fast''], cls_variables = [], cls_attrs = [''fast'' \<mapsto> PyInt 10]\<rparr>)"
    by simp
  from ne h1 nt r r' show ?thesis by (intro conjI)
qed

subsection \<open>Reflection\<close>

text \<open>
  Claim C5, on the variable name list. \<^verbatim>\<open>__init__\<close> assigns to \<^verbatim>\<open>self.variables\<close> the
  value of the call of \<^verbatim>\<open>extend\<close>, which is \<^verbatim>\<open>None\<close>, not the extended list. After a
  construction whose setting does not rebind the attribute (\<^verbatim>\<open>variables\<close> is not both a
  declared parameter and a key of the setting), the attribute is \<^verbatim>\<open>None\<close>, and
  \<^verbatim>\<open>get_variables\<close> raises \<^verbatim>\<open>TypeError\<close> when it iterates it.
\<close>

theorem init_variables_none:
  "init cls name symbols setting = Some self
   \<and> (''variables'' \<notin> set (cls_parameters cls) \<or> ''variables'' \<notin> dom setting) \<longrightarrow>
   variables self = None \<and> fst (get_variables self) = Some (Inl TypeError)"
proof
  assume "init cls name symbols setting = Some self
   \<and> (''variables'' \<notin> set (cls_parameters cls) \<or> ''variables'' \<notin> dom setting)"
  then have "init cls name symbols setting = Some self"
    and "''variables'' \<notin> set (cls_parameters cls) \<or> ''variables'' \<notin> dom setting"
    by simp_all
  then have "variables self = None" by (rule init_variables)
  then show "variables self = None \<and> fst (get_variables self) = Some (Inl TypeError)"
    by (simp add: get_variables_def)
qed

theorem init_variables_none_witness:
  "init \<lparr>cls_parameters = [''fast''], cls_variables = [], cls_attrs = [''fast'' \<mapsto> PyInt 10]\<rparr> ''demo'' [] [''fast'' \<mapsto> PyInt 5] \<noteq> None
   \<and> ''variables'' \<notin> set (cls_parameters \<lparr>cls_parameters = [''fast''], cls_variables = [], cls_attrs = [''fast'' \<mapsto> PyInt 10]\<rparr>)
   \<and> variables (the (init \<lparr>cls_parameters = [''fast''], cls_variables = [], cls_attrs = [''fast'' \<mapsto> PyInt 10]\<rparr> ''demo'' [] [''fast'' \<mapsto> PyInt 5])) = None
   \<and> fst (get_variables (the (init \<lparr>cls_parameters = [''fast''], cls_variables = [], cls_attrs = [''fast'' \<mapsto> PyInt 10]\<rparr> ''demo'' [] [''fast'' \<mapsto> PyInt 5]))) = Some (Inl TypeError)"
proof -
  let ?i = "init \<lparr>cls_parameters = [''fast''], cls_variables = [], cls_attrs = [''fast'' \<mapsto> PyInt 10]\<rparr> ''demo'' [] [''fast'' \<mapsto> PyInt 5]"
  have e: "?i = Some (the ?i)" by (simp add: init_demo)
  have ne: "?i \<noteq> None" by (simp add: init_demo)
  have h: "''variables'' \<notin> set (cls_parameters \<lparr>cls_parameters = [''fast''], cls_variables = [], cls_attrs = [''fast'' \<mapsto> PyInt 10]\<rparr>) \<or> ''variables'' \<notin> dom [''fast'' \<mapsto> PyInt 5]"
    by simp
  have r: "variables (the ?i) = None \<and> fst (get_variables (the ?i)) = Some (Inl TypeError)"
    by (rule mp [OF init_variables_none [of "\<lparr>cls_parameters = [''fast''], cls_variables = [], cls_attrs = [''fast'' \<mapsto> PyInt 10]\<rparr>" "''demo''" "[]" "[''fast'' \<mapsto> PyInt 5]" "the ?i"]])
       (intro conjI e h)
  have h1: "''variables'' \<notin> set (cls_parameters \<lparr>cls_parameters = [''fast''], cls_variables = [], cls_attrs = [''fast'' \<mapsto> PyInt 10]\<rparr>)"
    by simp
  from ne h1 r show ?thesis by (intro conjI) simp_all
qed




subsection \<open>Cancelling all orders\<close>

text \<open>
  With an engine whose \<^verbatim>\<open>cancel_order\<close> leaves the active-order set alone, \<^verbatim>\<open>cancel_all\<close>
  sends one cancel request for each entry of the set, in the order of the iteration.
\<close>

lemma cancel_all_loop_quiet:
  assumes "trading s" and "cancel_order_sync engine = (\<lambda>orderid ids. ids)"
    and "set entries \<subseteq> active_orderids s"
  shows "cancel_all_loop engine (card (active_orderids s)) entries s =
           (Inr (), s\<lparr>strategy_engine := strategy_engine s @ map CancelOrder entries\<rparr>)"
  using assms
proof (induction entries arbitrary: s)
  case Nil
  then show ?case by simp
next
  case (Cons x xs)
  let ?s = "cancel_order engine x s"
  have s: "?s = s\<lparr>strategy_engine := strategy_engine s @ [CancelOrder x]\<rparr>"
    using Cons.prems by (simp add: cancel_order_def)
  have "cancel_all_loop engine (card (active_orderids ?s)) xs ?s =
           (Inr (), ?s\<lparr>strategy_engine := strategy_engine ?s @ map CancelOrder xs\<rparr>)"
    using Cons.prems by (intro Cons.IH) (simp_all add: s)
  then show ?case using Cons.prems by (simp add: s)
qed

lemma cancel_all_quiet:
  assumes "trading s" and "cancel_order_sync engine = (\<lambda>orderid ids. ids)"
    and "set entries = active_orderids s"
  shows "cancel_all engine entries s =
           (Inr (), s\<lparr>strategy_engine := strategy_engine s @ map CancelOrder entries\<rparr>)"
  unfolding cancel_all_def using assms by (intro cancel_all_loop_quiet) simp_all

text \<open>
  Claim C7, on the iteration of \<^verbatim>\<open>cancel_all\<close>. The loop iterates the set itself, not a
  copy of it. With an engine whose \<^verbatim>\<open>cancel_order\<close> has the cancelled identifier removed
  from the set before it returns, and an instance that is trading with two active
  orders, the first request shrinks the set, and the iterator raises \<^verbatim>\<open>RuntimeError\<close>
  when asked for the second member: one cancel request has been sent, and the other
  order is still in the set, whichever of the two the iteration yields first.
\<close>

theorem cancel_all_live_set:
  "cancel_all
     \<lparr>send_order_ids = (\<lambda>calls. []), cancel_order_sync = (\<lambda>orderid ids. ids - {orderid})\<rparr>
     [''BTC-1'', ''BTC-2'']
     (self\<lparr>trading := True, active_orderids := {''BTC-1'', ''BTC-2''}\<rparr>) =
   (Inl RuntimeError,
    self\<lparr>trading := True, active_orderids := {''BTC-2''},
         strategy_engine := strategy_engine self @ [CancelOrder ''BTC-1'']\<rparr>)
   \<and> cancel_all
     \<lparr>send_order_ids = (\<lambda>calls. []), cancel_order_sync = (\<lambda>orderid ids. ids - {orderid})\<rparr>
     [''BTC-2'', ''BTC-1'']
     (self\<lparr>trading := True, active_orderids := {''BTC-1'', ''BTC-2''}\<rparr>) =
   (Inl RuntimeError,
    self\<lparr>trading := True, active_orderids := {''BTC-1''},
         strategy_engine := strategy_engine self @ [CancelOrder ''BTC-2'']\<rparr>)"
  by (simp add: cancel_all_def cancel_order_def insert_Diff_if)

section \<open>Properties of the stop order\<close>

text \<open>
  Claim C10. A stop order constructed with the nine required arguments only has the
  status waiting, an empty list of real-order identifiers, an empty reason, and a
  \<^verbatim>\<open>vt_symbol\<close> that is the symbol, a dot and the value of the exchange. The list is its
  own: a second stop order constructed afterwards holds another list, and an identifier
  appended to the second one's list does not appear in the first one's.
\<close>

theorem StopOrder_fresh:
  "case StopOrder_init symb exch dir offs pr vol sid sname dt None None None h of
     (so, h') \<Rightarrow>
       status so = WAITING
       \<and> lists h' (vt_orderids so) = Some []
       \<and> reason so = []
       \<and> vt_symbol_so so = symb @ ''.'' @ exchange_value exch
       \<and> (case StopOrder_init symb2 exch2 dir2 offs2 pr2 vol2 sid2 sname2 dt2
                 None None None h' of
            (so2, h'') \<Rightarrow>
              vt_orderids so2 \<noteq> vt_orderids so
              \<and> lists h'' (vt_orderids so2) = Some []
              \<and> lists h'' (vt_orderids so) = Some []
              \<and> (case list_append (vt_orderids so2) x h'' of
                    Inl e \<Rightarrow> False
                  | Inr h3 \<Rightarrow>
                      lists h3 (vt_orderids so2) = Some [x]
                      \<and> lists h3 (vt_orderids so) = Some []))"
  by (simp add: StopOrder_init_def post_init_def new_list_def list_append_def)

lemma stop_step_terminal: "status so \<noteq> WAITING \<Longrightarrow> stop_step e so = so"
  by (cases e) simp_all

lemma status_trace_terminal:
  "status so \<noteq> WAITING \<Longrightarrow> status_trace es so = replicate (Suc (length es)) (status so)"
  by (induction es) (simp_all add: stop_step_terminal)

lemma triggerings_replicate: "triggerings (a # replicate n a) = 0"
  by (induction n) simp_all

lemma status_trace_Cons: "status_trace es so = status so # tl (status_trace es so)"
  by (cases es) simp_all

lemma triggerings_terminal:
  "status so \<noteq> WAITING \<Longrightarrow> triggerings (status_trace es so) = 0"
  by (simp add: status_trace_terminal triggerings_replicate)

lemma triggerings_status_trace: "triggerings (status_trace es so) \<le> 1"
proof (induction es arbitrary: so)
  case Nil
  show ?case by simp
next
  case (Cons e es)
  let ?so = "stop_step e so"
  obtain rest where rest: "status_trace es ?so = status ?so # rest"
    using status_trace_Cons by blast
  show ?case
  proof (cases "status so \<noteq> TRIGGERED \<and> status ?so = TRIGGERED")
    case True
    then have "triggerings (status_trace es ?so) = 0"
      by (simp add: triggerings_terminal)
    with True rest show ?thesis by simp
  next
    case False
    with rest Cons.IH [of ?so] show ?thesis by auto
  qed
qed

lemma cancelled_stays:
  "status so = CANCELLED \<Longrightarrow> set (status_trace es so) = {CANCELLED}"
  by (auto simp: status_trace_terminal)

text \<open>
  Claim C6. Under the life cycle of the specification, whatever the events: the
  statuses a stop order goes through contain at most one transition to triggered; a
  cancelled stop order never shows the status triggered afterwards, whatever prices
  arrive; and no event changes a stop order that is triggered or cancelled.
\<close>

theorem stop_order_lifecycle:
  "triggerings (status_trace events so) \<le> 1
   \<and> (status so = CANCELLED \<longrightarrow> TRIGGERED \<notin> set (status_trace events so))
   \<and> (status so = TRIGGERED \<or> status so = CANCELLED \<longrightarrow> stop_step event so = so)"
  using triggerings_status_trace [of events so] cancelled_stays [of so events]
    stop_step_terminal [of so event]
  by auto

theorem stop_order_lifecycle_witness:
  "status (stop_step Cancellation
       (fst (StopOrder_init ''BTCUSDT'' \<lparr>exchange_value = ''BINANCE''\<rparr> LONG OPEN 100 1
          ''STOP.1'' ''demo'' 0 None None None \<lparr>next_ref = 0, lists = Map.empty\<rparr>))) = CANCELLED
   \<and> TRIGGERED \<notin> set (status_trace [PriceTick 99, PriceTick 101, PriceTick 102]
       (stop_step Cancellation
         (fst (StopOrder_init ''BTCUSDT'' \<lparr>exchange_value = ''BINANCE''\<rparr> LONG OPEN 100 1
            ''STOP.1'' ''demo'' 0 None None None \<lparr>next_ref = 0, lists = Map.empty\<rparr>))))
   \<and> stop_step (PriceTick 101)
       (stop_step Cancellation
         (fst (StopOrder_init ''BTCUSDT'' \<lparr>exchange_value = ''BINANCE''\<rparr> LONG OPEN 100 1
            ''STOP.1'' ''demo'' 0 None None None \<lparr>next_ref = 0, lists = Map.empty\<rparr>))) =
     stop_step Cancellation
         (fst (StopOrder_init ''BTCUSDT'' \<lparr>exchange_value = ''BINANCE''\<rparr> LONG OPEN 100 1
            ''STOP.1'' ''demo'' 0 None None None \<lparr>next_ref = 0, lists = Map.empty\<rparr>))
   \<and> status_trace [PriceTick 99, PriceTick 101, PriceTick 102]
         (fst (StopOrder_init ''BTCUSDT'' \<lparr>exchange_value = ''BINANCE''\<rparr> LONG OPEN 100 1
            ''STOP.1'' ''demo'' 0 None None None \<lparr>next_ref = 0, lists = Map.empty\<rparr>)) =
       [WAITING, WAITING, TRIGGERED, TRIGGERED]
   \<and> triggerings (status_trace [PriceTick 99, PriceTick 101, PriceTick 102]
         (fst (StopOrder_init ''BTCUSDT'' \<lparr>exchange_value = ''BINANCE''\<rparr> LONG OPEN 100 1
            ''STOP.1'' ''demo'' 0 None None None \<lparr>next_ref = 0, lists = Map.empty\<rparr>))) \<le> 1"
proof -
  let ?so = "fst (StopOrder_init ''BTCUSDT'' \<lparr>exchange_value = ''BINANCE''\<rparr> LONG OPEN 100 1
            ''STOP.1'' ''demo'' 0 None None None \<lparr>next_ref = 0, lists = Map.empty\<rparr>)"
  let ?c = "stop_step Cancellation ?so"
  let ?es = "[PriceTick 99, PriceTick 101, PriceTick 102]"
  have w: "status ?so = WAITING"
    by (simp add: StopOrder_init_def post_init_def new_list_def)
  have d: "direction_so ?so = LONG" "price ?so = 100"
    by (simp_all add: StopOrder_init_def post_init_def new_list_def)
  have h: "status ?c = CANCELLED" using w by simp
  have tr: "status_trace ?es ?so = [WAITING, WAITING, TRIGGERED, TRIGGERED]"
    using w d by (simp add: trigger_met_def)
  from h stop_order_lifecycle [of ?es ?c "PriceTick 101"]
  have "TRIGGERED \<notin> set (status_trace ?es ?c)" and "stop_step (PriceTick 101) ?c = ?c"
    by blast+
  moreover from stop_order_lifecycle [of ?es ?so]
  have "triggerings (status_trace ?es ?so) \<le> 1" by blast
  ultimately show ?thesis using h tr by blast
qed

end
